theory Spec2Isabelle
  imports Complex_Main "HOL-Library.Sublist"
begin

section \<open>The upload component (VideoUpload)\<close>

text \<open>
  The component keeps five pieces of React state, one flag for the drop zone and a mutable
  reference \<open>processingInterval\<close> that holds the handle of the polling interval. Its
  handlers are translated one by one. An \<open>async\<close> handler is cut at its \<open>await\<close>:
  the part before it issues the HTTP request, and the part after it runs when the request is
  resolved or rejected, so other handlers may run in between, as in the browser.

  Everything the handlers do to their surroundings is kept in the same record: the table of
  running interval timers of the browser, the HTTP requests issued, the alerts shown, the
  lines written to the console and the calls of the \<open>onUploadComplete\<close> prop.
\<close>

record video_file =
  file_name :: string
  file_type :: string
  file_size :: nat

text \<open>The body of a \<open>/status\<close> response.\<close>

record status_data =
  status :: string
  progress :: int
  message :: string

text \<open>
  A status request is tagged with the handle of the interval whose tick issued it; the
  session id is the one captured by the closure of that interval.
\<close>

datatype request = Post_upload video_file | Get_status nat string

record video_upload =
  uploadState :: string
  uploadProgress :: "int option"
  processProgress :: int
  statusMessage :: string
  sessionId :: "string option"
  isDragOver :: bool
  processingInterval :: "nat option"
  onUploadComplete :: bool
  intervals :: "nat \<rightharpoonup> string"
  nextHandle :: nat
  requests :: "request list"
  alerts :: "string list"
  console :: "string list"
  completions :: "(string \<times> status_data) list"

text \<open>
  The state after mounting. \<open>uploadProgress\<close> is \<open>None\<close> when the JavaScript number is
  not finite. \<open>onUploadComplete\<close> says whether the prop was supplied. Interval handles of
  a browser are positive, so the first one is 1.
\<close>

definition initial :: "bool \<Rightarrow> video_upload" where
  "initial prop =
     \<lparr>uploadState = ''idle'', uploadProgress = Some 0, processProgress = 0,
      statusMessage = '''', sessionId = None, isDragOver = False,
      processingInterval = None, onUploadComplete = prop,
      intervals = Map.empty, nextHandle = 1,
      requests = [], alerts = [], console = [], completions = []\<rparr>"

subsection \<open>Browser primitives\<close>

definition alert :: "string \<Rightarrow> video_upload \<Rightarrow> video_upload" where
  "alert msg w = w\<lparr>alerts := alerts w @ [msg]\<rparr>"

definition console_error :: "string \<Rightarrow> video_upload \<Rightarrow> video_upload" where
  "console_error msg w = w\<lparr>console := console w @ [msg]\<rparr>"

text \<open>\<open>setInterval\<close> registers a timer under a fresh handle and returns the handle.\<close>

definition setInterval :: "string \<Rightarrow> video_upload \<Rightarrow> nat \<times> video_upload" where
  "setInterval sid w =
     (nextHandle w,
      w\<lparr>intervals := (intervals w)(nextHandle w \<mapsto> sid), nextHandle := Suc (nextHandle w)\<rparr>)"

text \<open>\<open>clearInterval\<close> of \<open>null\<close> or of a handle that is not running does nothing.\<close>

definition clearInterval :: "nat option \<Rightarrow> video_upload \<Rightarrow> video_upload" where
  "clearInterval h w =
     (case h of None \<Rightarrow> w | Some i \<Rightarrow> w\<lparr>intervals := (intervals w)(i := None)\<rparr>)"

subsection \<open>Handlers\<close>

definition validTypes :: "string list" where
  "validTypes = [''video/mp4'', ''video/avi'', ''video/quicktime'', ''video/x-msvideo'']"

text \<open>\<open>uploadFile\<close> up to its \<open>await\<close>: the POST is issued.\<close>

definition uploadFile :: "video_file \<Rightarrow> video_upload \<Rightarrow> video_upload" where
  "uploadFile f w =
     w\<lparr>uploadState := ''uploading'', uploadProgress := Some 0,
       requests := requests w @ [Post_upload f]\<rparr>"

definition handleFileSelect :: "video_file \<Rightarrow> video_upload \<Rightarrow> video_upload" where
  "handleFileSelect f w =
     (if file_type f \<notin> set validTypes
      then alert ''Please select a valid video file (MP4, AVI, MOV, MKV)'' w
      else if file_size f > 500 * 1024 * 1024
      then alert ''File size must be less than 500MB'' w
      else uploadFile f w)"

text \<open>
  \<open>Math.round((loaded * 100) / total)\<close>: \<open>Math.round\<close> rounds halves upwards; a total of
  0 gives a number that is not finite.
\<close>

definition onUploadProgress :: "nat \<Rightarrow> nat \<Rightarrow> video_upload \<Rightarrow> video_upload" where
  "onUploadProgress loaded tot w =
     w\<lparr>uploadProgress :=
         (if tot = 0 then None
          else Some (int ((2 * (loaded * 100) + tot) div (2 * tot))))\<rparr>"

definition startProcessingMonitor :: "string \<Rightarrow> video_upload \<Rightarrow> video_upload" where
  "startProcessingMonitor sid w =
     (case setInterval sid w of (h, w') \<Rightarrow> w'\<lparr>processingInterval := Some h\<rparr>)"

text \<open>\<open>uploadFile\<close> after its \<open>await\<close>, when the POST returned a session id.\<close>

definition uploadFile_resolved :: "string \<Rightarrow> video_upload \<Rightarrow> video_upload" where
  "uploadFile_resolved sid w =
     startProcessingMonitor sid
       (w\<lparr>sessionId := Some sid, uploadState := ''processing'',
          statusMessage := ''Starting analysis...''\<rparr>)"

text \<open>The \<open>catch\<close> branch of \<open>uploadFile\<close>.\<close>

definition uploadFile_rejected :: "video_upload \<Rightarrow> video_upload" where
  "uploadFile_rejected w =
     (console_error ''Upload error:'' w)
       \<lparr>uploadState := ''error'', statusMessage := ''Upload failed. Please try again.''\<rparr>"

text \<open>
  The interval callback up to its \<open>await\<close>: a tick of a running interval issues the status
  request for the session of its closure; a cleared interval never ticks.
\<close>

definition monitor_tick :: "nat \<Rightarrow> video_upload \<Rightarrow> video_upload" where
  "monitor_tick h w =
     (case intervals w h of
        None \<Rightarrow> w
      | Some sid \<Rightarrow> w\<lparr>requests := requests w @ [Get_status h sid]\<rparr>)"

text \<open>
  The interval callback after its \<open>await\<close>, when the request returned the status \<open>st\<close>.
  The interval that is cleared is the one whose handle \<open>processingInterval\<close> holds.
\<close>

definition monitor_resolved :: "string \<Rightarrow> status_data \<Rightarrow> video_upload \<Rightarrow> video_upload" where
  "monitor_resolved sid st w =
     (let w1 = w\<lparr>processProgress := progress st, statusMessage := message st\<rparr>
      in if status st = ''completed''
         then let w2 = (clearInterval (processingInterval w1) w1)\<lparr>uploadState := ''completed''\<rparr>
              in if onUploadComplete w2
                 then w2\<lparr>completions := completions w2 @ [(sid, st)]\<rparr>
                 else w2
         else if status st = ''error''
         then (clearInterval (processingInterval w1) w1)
                \<lparr>uploadState := ''error'',
                 statusMessage := ''Processing failed: '' @ message st\<rparr>
         else w1)"

text \<open>The \<open>catch\<close> branch of the interval callback: the failure is only logged.\<close>

definition monitor_rejected :: "video_upload \<Rightarrow> video_upload" where
  "monitor_rejected w = console_error ''Status check error:'' w"

definition handleDragOver :: "video_upload \<Rightarrow> video_upload" where
  "handleDragOver w = w\<lparr>isDragOver := True\<rparr>"

definition handleDragLeave :: "video_upload \<Rightarrow> video_upload" where
  "handleDragLeave w = w\<lparr>isDragOver := False\<rparr>"

definition handleDrop :: "video_file list \<Rightarrow> video_upload \<Rightarrow> video_upload" where
  "handleDrop files w =
     (let w1 = w\<lparr>isDragOver := False\<rparr>
      in case files of [] \<Rightarrow> w1 | f # _ \<Rightarrow> handleFileSelect f w1)"

definition handleFileInputChange :: "video_file list \<Rightarrow> video_upload \<Rightarrow> video_upload" where
  "handleFileInputChange files w =
     (case files of [] \<Rightarrow> w | f # _ \<Rightarrow> handleFileSelect f w)"

text \<open>
  \<open>resetUpload\<close> clears the interval when the reference is truthy: neither \<open>null\<close> nor 0.
  The reference itself keeps its handle.
\<close>

definition resetUpload :: "video_upload \<Rightarrow> video_upload" where
  "resetUpload w =
     (let w1 = w\<lparr>uploadState := ''idle'', uploadProgress := Some 0, processProgress := 0,
                 statusMessage := '''', sessionId := None\<rparr>
      in case processingInterval w1 of
           None \<Rightarrow> w1
         | Some h \<Rightarrow> if h \<noteq> 0 then clearInterval (Some h) w1 else w1)"

subsection \<open>Events\<close>

text \<open>
  What can happen to a mounted component. The drop zone and the file input are rendered
  only while \<open>uploadState\<close> is \<open>idle\<close>, and the two buttons bound to \<open>resetUpload\<close> only
  in the states \<open>completed\<close> and \<open>error\<close>; an event on an element that is not rendered does
  not occur. Responses of the server are accepted whenever they arrive.
\<close>

datatype event =
    DragOver
  | DragLeave
  | Drop "video_file list"
  | FileInputChange "video_file list"
  | UploadProgress nat nat
  | UploadResolved string
  | UploadRejected
  | IntervalTick nat
  | StatusResolved string status_data
  | StatusRejected
  | ResetClick

definition step :: "event \<Rightarrow> video_upload \<Rightarrow> video_upload" where
  "step e w =
     (case e of
        DragOver \<Rightarrow> if uploadState w = ''idle'' then handleDragOver w else w
      | DragLeave \<Rightarrow> if uploadState w = ''idle'' then handleDragLeave w else w
      | Drop files \<Rightarrow> if uploadState w = ''idle'' then handleDrop files w else w
      | FileInputChange files \<Rightarrow>
          if uploadState w = ''idle'' then handleFileInputChange files w else w
      | UploadProgress loaded tot \<Rightarrow> onUploadProgress loaded tot w
      | UploadResolved sid \<Rightarrow> uploadFile_resolved sid w
      | UploadRejected \<Rightarrow> uploadFile_rejected w
      | IntervalTick h \<Rightarrow> monitor_tick h w
      | StatusResolved sid st \<Rightarrow> monitor_resolved sid st w
      | StatusRejected \<Rightarrow> monitor_rejected w
      | ResetClick \<Rightarrow>
          if uploadState w = ''completed'' \<or> uploadState w = ''error''
          then resetUpload w else w)"

primrec run :: "event list \<Rightarrow> video_upload \<Rightarrow> video_upload" where
  "run [] w = w"
| "run (e # es) w = run es (step e w)"

definition upload_states :: "string list" where
  "upload_states = [''idle'', ''uploading'', ''processing'', ''completed'', ''error'']"

definition terminal :: "string \<Rightarrow> bool" where
  "terminal s = (s = ''completed'' \<or> s = ''error'')"



definition demo_mp4 :: video_file where
  "demo_mp4 = \<lparr>file_name = ''demo.mp4'', file_type = ''video/mp4'', file_size = 1048576\<rparr>"


subsection \<open>Sequences of events that a browser delivers\<close>






section \<open>The timeline page (Timeline)\<close>

text \<open>
  The result of \<open>/results\<close> as the page reads it. The JavaScript numbers \<open>duration\<close>
  and \<open>confidence_score\<close> are taken as rationals; the page only displays them.
\<close>

record timeline_segment =
  seg_id :: int
  screenshot_path :: string
  formatted_time_range :: string
  duration :: rat
  confidence_score :: rat
  summary :: string
  key_topics :: "string list"
  transcript :: string

record timeline_metadata =
  video_filename :: string
  total_segments :: int

record timeline_result =
  metadata :: timeline_metadata
  timeline_segments :: "timeline_segment list"

record timeline =
  timelineData :: "timeline_result option"
  loading :: bool
  error :: "string option"
  searchTerm :: string
  selectedTopics :: "string list"
  filteredSegments :: "timeline_segment list"

text \<open>
  \<open>String.prototype.toLowerCase\<close> belongs to the language and lowers the letters of every
  script. It is not written out here: \<open>filterSegments\<close> takes it as its first argument,
  and what is proved about \<open>filterSegments\<close> holds for whatever function stands there.
  For the examples, \<open>ascii_lower\<close> lowers the letters A to Z; on a string of ASCII
  characters \<open>toLowerCase\<close> gives the same result.
\<close>

definition lower_char :: "char \<Rightarrow> char" where
  "lower_char c =
     (case map_of (zip ''ABCDEFGHIJKLMNOPQRSTUVWXYZ'' ''abcdefghijklmnopqrstuvwxyz'') c of
        None \<Rightarrow> c
      | Some l \<Rightarrow> l)"

definition ascii_lower :: "string \<Rightarrow> string" where
  "ascii_lower s = map lower_char s"

text \<open>\<open>String.prototype.includes\<close>: the argument occurs as a contiguous substring.\<close>

fun str_includes :: "string \<Rightarrow> string \<Rightarrow> bool" where
  "str_includes [] sub = (sub = [])"
| "str_includes (c # cs) sub = (prefix sub (c # cs) \<or> str_includes cs sub)"

text \<open>\<open>Array.prototype.includes\<close>.\<close>

definition arr_includes :: "string list \<Rightarrow> string \<Rightarrow> bool" where
  "arr_includes xs x = (x \<in> set xs)"

text \<open>
  \<open>filterSegments\<close> returns at once while no result is loaded. An empty search term is
  falsy, so the first filter is skipped for it.
\<close>

definition filterSegments :: "(string \<Rightarrow> string) \<Rightarrow> timeline \<Rightarrow> timeline" where
  "filterSegments toLowerCase s =
     (case timelineData s of
        None \<Rightarrow> s
      | Some d \<Rightarrow>
          let filtered = timeline_segments d;
              filtered =
                (if searchTerm s \<noteq> ''''
                 then filter (\<lambda>segment.
                        str_includes (toLowerCase (transcript segment))
                          (toLowerCase (searchTerm s)) \<or>
                        str_includes (toLowerCase (summary segment))
                          (toLowerCase (searchTerm s)) \<or>
                        list_ex (\<lambda>topic.
                            str_includes (toLowerCase topic) (toLowerCase (searchTerm s)))
                          (key_topics segment)) filtered
                 else filtered);
              filtered =
                (if length (selectedTopics s) > 0
                 then filter (\<lambda>segment.
                        list_ex (\<lambda>topic. arr_includes (selectedTopics s) topic)
                          (key_topics segment)) filtered
                 else filtered)
          in s\<lparr>filteredSegments := filtered\<rparr>)"

text \<open>The updater that \<open>toggleTopic\<close> hands to \<open>setSelectedTopics\<close>, applied.\<close>

definition toggleTopic :: "string \<Rightarrow> timeline \<Rightarrow> timeline" where
  "toggleTopic topic s =
     s\<lparr>selectedTopics :=
         (if arr_includes (selectedTopics s) topic
          then filter (\<lambda>t. t \<noteq> topic) (selectedTopics s)
          else selectedTopics s @ [topic])\<rparr>"

definition demo_seg0 :: timeline_segment where
  "demo_seg0 =
     \<lparr>seg_id = 0, screenshot_path = ''/screenshots/0.png'',
      formatted_time_range = ''00:00:00 - 00:00:05'', duration = 5, confidence_score = 90,
      summary = ''Intro slide'', key_topics = [''Intro''],
      transcript = ''Welcome everyone''\<rparr>"

definition demo_seg1 :: timeline_segment where
  "demo_seg1 =
     \<lparr>seg_id = 1, screenshot_path = ''/screenshots/1.png'',
      formatted_time_range = ''00:00:05 - 00:00:10'', duration = 5, confidence_score = 85,
      summary = ''Budget table'', key_topics = [''Budget''],
      transcript = ''Here are the numbers''\<rparr>"

definition demo_result :: timeline_result where
  "demo_result =
     \<lparr>metadata = \<lparr>video_filename = ''demo.mp4'', total_segments = 2\<rparr>,
      timeline_segments = [demo_seg0, demo_seg1]\<rparr>"

definition demo_page :: "string \<Rightarrow> string list \<Rightarrow> timeline" where
  "demo_page needle topics =
     \<lparr>timelineData = Some demo_result, loading = False, error = None,
      searchTerm = needle, selectedTopics = topics, filteredSegments = []\<rparr>"

section \<open>The Screen-Change Segmenter\<close>

text \<open>
  The Segmenter belongs to the server (\<open>core/video_analyzer.py\<close>), which the sources of
  the two components above do not contain. It is written here from its contract in the
  specification (section 4.2), with the time bounds of a Visual Segment only and with
  rational numbers for the seconds.
\<close>

type_synonym 'img frame_sample = "rat \<times> 'img"

text \<open>A change boundary: its time, and the similarity score that declared it.\<close>

type_synonym boundary = "rat \<times> rat"

record segmenter_config =
  similarity_threshold :: rat
  min_duration :: rat

record visual_segment =
  seg_start :: rat
  seg_end :: rat

text \<open>
  Modelled from the spec: the boundary detection of the Segmenter. A similarity score is
  computed between each consecutive pair of sampled frames, and a change boundary is
  declared when it drops below the threshold. The boundary is put at the later frame of
  the pair, the first one that shows the new screen.
\<close>

fun raw_boundaries ::
  "('img \<Rightarrow> 'img \<Rightarrow> rat) \<Rightarrow> rat \<Rightarrow> 'img frame_sample list \<Rightarrow> boundary list" where
  "raw_boundaries sim thr ((t1, a) # (t2, b) # fs) =
     (if sim a b < thr
      then (t2, sim a b) # raw_boundaries sim thr ((t2, b) # fs)
      else raw_boundaries sim thr ((t2, b) # fs))"
| "raw_boundaries sim thr fs = []"

text \<open>
  Modelled from the spec: the Visual Segments that a list of boundaries cuts out of the
  video: from the start of the video to the first boundary, from each boundary to the
  next, and from the last boundary to the end of the video.
\<close>

fun segments_from :: "rat \<Rightarrow> boundary list \<Rightarrow> rat \<Rightarrow> visual_segment list" where
  "segments_from s [] d = [\<lparr>seg_start = s, seg_end = d\<rparr>]"
| "segments_from s ((t, c) # bs) d = \<lparr>seg_start = s, seg_end = t\<rparr> # segments_from t bs d"

text \<open>Modelled from the spec: a segment shorter than \<open>min_duration\<close>.\<close>

definition short :: "rat \<Rightarrow> visual_segment \<Rightarrow> bool" where
  "short md g = (seg_end g - seg_start g < md)"

text \<open>
  Modelled from the spec: the position of the first segment that is too short. The
  specification does not say in which order short segments are absorbed; here it is from
  the start of the video on.
\<close>

fun first_short :: "rat \<Rightarrow> visual_segment list \<Rightarrow> nat option" where
  "first_short md [] = None"
| "first_short md (g # gs) =
     (if short md g then Some 0 else map_option Suc (first_short md gs))"

text \<open>
  Modelled from the spec: the boundary that goes when segment \<open>i\<close> is absorbed. The
  segment is absorbed into the adjacent segment with which it shares the weaker visual
  discontinuity, that is the boundary with the higher similarity score; on a tie it is
  merged into the following segment. The first segment has only a following neighbour and
  the last one only a preceding neighbour. Boundary \<open>j\<close> lies between the segments \<open>j\<close>
  and \<open>j + 1\<close>.
\<close>

definition absorbed_boundary :: "nat \<Rightarrow> boundary list \<Rightarrow> nat" where
  "absorbed_boundary i bs =
     (if i = 0 then 0
      else if i = length bs then i - 1
      else if snd (bs ! (i - 1)) > snd (bs ! i) then i - 1
      else i)"

definition remove_boundary :: "nat \<Rightarrow> boundary list \<Rightarrow> boundary list" where
  "remove_boundary j bs = take j bs @ drop (Suc j) bs"

text \<open>
  Modelled from the spec: the merging of raw boundaries. Any segment shorter than
  \<open>min_duration\<close> is absorbed into a neighbour, until no segment is too short or a single
  segment is left.
\<close>

function merge_short :: "rat \<Rightarrow> rat \<Rightarrow> boundary list \<Rightarrow> boundary list" where
  "merge_short md d bs =
     (if bs = [] then []
      else case first_short md (segments_from 0 bs d) of
             None \<Rightarrow> bs
           | Some i \<Rightarrow> merge_short md d (remove_boundary (absorbed_boundary i bs) bs))"
  by pat_completeness auto
termination
proof (relation "measure (\<lambda>(md, d, bs). length bs)")
  show "wf (measure (\<lambda>(md, d, bs). length bs))" by simp
next
  fix md d :: rat and bs :: "boundary list" and i
  assume ne: "bs \<noteq> []" and fs: "first_short md (segments_from 0 bs d) = Some i"
  have pos: "first_short md gs = Some k \<Longrightarrow> k < length gs" for gs k
    by (induction gs arbitrary: k) (auto split: if_splits)
  have len: "length (segments_from s cs d) = Suc (length cs)" for s cs
    by (induction s cs d rule: segments_from.induct) simp_all
  from pos [OF fs] have "i \<le> length bs" by (simp add: len)
  with ne have "absorbed_boundary i bs < length bs" by (auto simp: absorbed_boundary_def)
  then have "length (remove_boundary (absorbed_boundary i bs) bs) < length bs"
    by (simp add: remove_boundary_def)
  then show "((md, d, remove_boundary (absorbed_boundary i bs) bs), (md, d, bs))
               \<in> measure (\<lambda>(md, d, bs). length bs)"
    by simp
qed

declare merge_short.simps [simp del]

text \<open>
  Modelled from the spec: the Segmenter, from the frame stream of a video of duration
  \<open>d\<close> to its ordered list of Visual Segments.
\<close>

definition segmenter ::
  "segmenter_config \<Rightarrow> ('img \<Rightarrow> 'img \<Rightarrow> rat) \<Rightarrow> rat \<Rightarrow> 'img frame_sample list
     \<Rightarrow> visual_segment list" where
  "segmenter cfg sim d frames =
     segments_from 0
       (merge_short (min_duration cfg) d
          (raw_boundaries sim (similarity_threshold cfg) frames)) d"

text \<open>The properties asked of the list of segments.\<close>

fun contiguous :: "visual_segment list \<Rightarrow> bool" where
  "contiguous (a # b # gs) = (seg_end a = seg_start b \<and> contiguous (b # gs))"
| "contiguous gs = True"

definition non_overlapping :: "visual_segment list \<Rightarrow> bool" where
  "non_overlapping gs = sorted_wrt (\<lambda>a b. seg_end a \<le> seg_start b) gs"

definition covers :: "rat \<Rightarrow> visual_segment list \<Rightarrow> bool" where
  "covers d gs = (gs \<noteq> [] \<and> seg_start (hd gs) = 0 \<and> seg_end (last gs) = d)"

text \<open>The boundaries are in ascending order and strictly inside the video.\<close>

definition inside :: "rat \<Rightarrow> boundary list \<Rightarrow> bool" where
  "inside d bs = (sorted_wrt (<) (map fst bs) \<and> (\<forall>b \<in> set bs. 0 < fst b \<and> fst b < d))"

text \<open>
  Example data: screens are numbered, two frames of the same screen are equal, screens of
  the same decade look alike, and the settings are the documented defaults.
\<close>

definition demo_similarity :: "nat \<Rightarrow> nat \<Rightarrow> rat" where
  "demo_similarity a b =
     (if a = b then 1 else if a div 10 = b div 10 then 7 / 10 else 1 / 10)"

definition demo_config :: segmenter_config where
  "demo_config = \<lparr>similarity_threshold = 85 / 100, min_duration = 2\<rparr>"

definition demo_frames :: "nat frame_sample list" where
  "demo_frames =
     [(0, 1), (1, 1), (2, 1), (3, 1), (4, 20), (5, 2), (6, 2), (7, 2), (8, 2), (9, 2)]"

section \<open>Properties of the upload component\<close>

lemmas handler_defs = alert_def console_error_def setInterval_def clearInterval_def
  uploadFile_def handleFileSelect_def onUploadProgress_def startProcessingMonitor_def
  uploadFile_resolved_def uploadFile_rejected_def monitor_tick_def monitor_resolved_def
  monitor_rejected_def handleDragOver_def handleDragLeave_def handleDrop_def
  handleFileInputChange_def resetUpload_def

text \<open>
  C1. The upload is to begin for the container formats MP4, AVI, MOV and MKV. A browser
  reports a Matroska file with the type \<open>video/x-matroska\<close>, or with no type at all;
  neither is among \<open>validTypes\<close>. An MKV file of one megabyte is turned away with the
  alert that itself lists MKV as a valid format: no request is issued and the component
  stays \<open>idle\<close>.
\<close>

theorem handleFileSelect_rejects_mkv:
  "handleFileSelect
     \<lparr>file_name = ''talk.mkv'', file_type = ''video/x-matroska'', file_size = 1048576\<rparr>
     (initial True)
   = (initial True)\<lparr>alerts := [''Please select a valid video file (MP4, AVI, MOV, MKV)'']\<rparr> \<and>
   handleFileSelect
     \<lparr>file_name = ''talk.mkv'', file_type = '''', file_size = 1048576\<rparr>
     (initial True)
   = (initial True)\<lparr>alerts := [''Please select a valid video file (MP4, AVI, MOV, MKV)'']\<rparr> \<and>
   requests (handleFileSelect
       \<lparr>file_name = ''talk.mkv'', file_type = ''video/x-matroska'', file_size = 1048576\<rparr>
       (initial True)) = [] \<and>
   uploadState (handleFileSelect
       \<lparr>file_name = ''talk.mkv'', file_type = ''video/x-matroska'', file_size = 1048576\<rparr>
       (initial True)) = ''idle''"
  by (simp add: handleFileSelect_def validTypes_def alert_def initial_def)

text \<open>
  C4. A file larger than 500 * 1024 * 1024 bytes is rejected with an alert: no request is
  issued, the upload state and the session id keep their values and no interval is
  started. A file at or under the ceiling whose type is valid is handed to
  \<open>uploadFile\<close>: the POST is issued and the state becomes \<open>uploading\<close>.
\<close>

theorem handleFileSelect_size_ceiling:
  "(file_size f > 500 * 1024 * 1024 \<longrightarrow>
      (\<exists>msg. handleFileSelect f w = alert msg w) \<and>
      requests (handleFileSelect f w) = requests w \<and>
      uploadState (handleFileSelect f w) = uploadState w \<and>
      sessionId (handleFileSelect f w) = sessionId w \<and>
      intervals (handleFileSelect f w) = intervals w) \<and>
   (file_size f \<le> 500 * 1024 * 1024 \<and> file_type f \<in> set validTypes \<longrightarrow>
      handleFileSelect f w = uploadFile f w \<and>
      requests (handleFileSelect f w) = requests w @ [Post_upload f] \<and>
      uploadState (handleFileSelect f w) = ''uploading'')"
  by (auto simp: handleFileSelect_def alert_def uploadFile_def)

theorem handleFileSelect_size_ceiling_witness:
  "file_size (demo_mp4\<lparr>file_size := 524288001\<rparr>) > 500 * 1024 * 1024 \<and>
   requests (handleFileSelect (demo_mp4\<lparr>file_size := 524288001\<rparr>) (initial True)) = [] \<and>
   uploadState (handleFileSelect (demo_mp4\<lparr>file_size := 524288001\<rparr>) (initial True)) = ''idle'' \<and>
   file_size (demo_mp4\<lparr>file_size := 524288000\<rparr>) \<le> 500 * 1024 * 1024 \<and>
   file_type (demo_mp4\<lparr>file_size := 524288000\<rparr>) \<in> set validTypes \<and>
   requests (handleFileSelect (demo_mp4\<lparr>file_size := 524288000\<rparr>) (initial True))
     = [Post_upload (demo_mp4\<lparr>file_size := 524288000\<rparr>)] \<and>
   uploadState (handleFileSelect (demo_mp4\<lparr>file_size := 524288000\<rparr>) (initial True))
     = ''uploading''"
  using handleFileSelect_size_ceiling [of "demo_mp4\<lparr>file_size := 524288001\<rparr>" "initial True"]
    handleFileSelect_size_ceiling [of "demo_mp4\<lparr>file_size := 524288000\<rparr>" "initial True"]
  by (simp add: demo_mp4_def validTypes_def initial_def handleFileSelect_def alert_def
      uploadFile_def)

lemma step_uploadState:
  "uploadState w \<in> set upload_states \<Longrightarrow> uploadState (step e w) \<in> set upload_states"
  by (cases e)
    (auto simp: step_def handler_defs upload_states_def Let_def
      split: list.splits option.splits)

lemma run_uploadState:
  "uploadState w \<in> set upload_states \<Longrightarrow> uploadState (run es w) \<in> set upload_states"
  by (induction es arbitrary: w) (simp_all add: step_uploadState)

text \<open>
  C3. Whatever events reach a mounted component, in whatever order, its upload state is one
  of the five strings \<open>idle\<close>, \<open>uploading\<close>, \<open>processing\<close>, \<open>completed\<close> and \<open>error\<close>.
\<close>

theorem uploadState_closed_enumeration:
  "uploadState (run es (initial prop)) \<in> set upload_states"
proof -
  have "uploadState (initial prop) \<in> set upload_states"
    by (simp add: initial_def upload_states_def)
  then show ?thesis by (rule run_uploadState)
qed

text \<open>
  C5. When a polled status reports \<open>error\<close>, the component goes to its \<open>error\<close> state and
  shows \<open>Processing failed: \<close> followed by the message of that status.
\<close>

theorem monitor_error_surfaces_message:
  "status st = ''error'' \<Longrightarrow>
     uploadState (monitor_resolved sid st w) = ''error'' \<and>
     statusMessage (monitor_resolved sid st w) = ''Processing failed: '' @ message st"
  by (simp add: monitor_resolved_def clearInterval_def Let_def split: option.splits)

theorem monitor_error_surfaces_message_witness:
  "status \<lparr>status = ''error'', progress = 40, message = ''Could not open video''\<rparr> = ''error'' \<and>
   uploadState (monitor_resolved ''s1''
       \<lparr>status = ''error'', progress = 40, message = ''Could not open video''\<rparr>
       (run [FileInputChange [demo_mp4], UploadResolved ''s1''] (initial True))) = ''error'' \<and>
   statusMessage (monitor_resolved ''s1''
       \<lparr>status = ''error'', progress = 40, message = ''Could not open video''\<rparr>
       (run [FileInputChange [demo_mp4], UploadResolved ''s1''] (initial True)))
     = ''Processing failed: Could not open video''"
  using monitor_error_surfaces_message
    [of "\<lparr>status = ''error'', progress = 40, message = ''Could not open video''\<rparr>" "''s1''"
      "run [FileInputChange [demo_mp4], UploadResolved ''s1''] (initial True)"]
  by simp

subsection \<open>The polling interval\<close>







text \<open>
  The reference \<open>processingInterval\<close> is assigned by \<open>startProcessingMonitor\<close> only: the
  handle it holds changes only when a further monitor is started.
\<close>

lemma step_keeps_reference:
  "\<forall>sid. e \<noteq> UploadResolved sid \<Longrightarrow> processingInterval (step e w) = processingInterval w"
  by (cases e)
    (auto simp: step_def handler_defs Let_def split: list.splits option.splits if_splits)

lemma startProcessingMonitor_reference:
  "processingInterval (startProcessingMonitor sid w) = Some (nextHandle w) \<and>
   intervals (startProcessingMonitor sid w) (nextHandle w) = Some sid"
  by (simp add: startProcessingMonitor_def setInterval_def)




text \<open>
  C10. A failed status request only writes a line to the console: upload state, process
  progress, status message and session id keep their values, the interval keeps running
  and the reference keeps its handle. A later poll that reports \<open>completed\<close> or \<open>error\<close>
  still takes the component to that state.
\<close>

theorem monitor_rejected_keeps_state:
  "uploadState (monitor_rejected w) = uploadState w \<and>
   processProgress (monitor_rejected w) = processProgress w \<and>
   statusMessage (monitor_rejected w) = statusMessage w \<and>
   sessionId (monitor_rejected w) = sessionId w \<and>
   intervals (monitor_rejected w) = intervals w \<and>
   processingInterval (monitor_rejected w) = processingInterval w \<and>
   requests (monitor_tick h (monitor_rejected w)) = requests (monitor_tick h w) \<and>
   (terminal (status st) \<longrightarrow>
      uploadState (monitor_resolved sid st (monitor_rejected w)) = status st)"
  by (auto simp: monitor_rejected_def console_error_def monitor_resolved_def monitor_tick_def
      clearInterval_def terminal_def Let_def split: option.splits)

theorem monitor_rejected_keeps_state_witness:
  "terminal (status \<lparr>status = ''completed'', progress = 100, message = ''Done''\<rparr>) \<and>
   uploadState (monitor_rejected
       (run [FileInputChange [demo_mp4], UploadResolved ''s1''] (initial True)))
     = ''processing'' \<and>
   intervals (monitor_rejected
       (run [FileInputChange [demo_mp4], UploadResolved ''s1''] (initial True))) 1
     = Some ''s1'' \<and>
   uploadState (monitor_resolved ''s1''
       \<lparr>status = ''completed'', progress = 100, message = ''Done''\<rparr>
       (monitor_rejected
          (run [FileInputChange [demo_mp4], UploadResolved ''s1''] (initial True))))
     = ''completed''"
proof -
  let ?w = "run [FileInputChange [demo_mp4], UploadResolved ''s1''] (initial True)"
  have u: "uploadState ?w = ''processing''"
    by (simp add: step_def handler_defs initial_def demo_mp4_def validTypes_def)
  have i: "intervals ?w 1 = Some ''s1''"
    by (simp add: step_def handler_defs initial_def demo_mp4_def validTypes_def)
  from u i monitor_rejected_keeps_state
    [of ?w 1 "\<lparr>status = ''completed'', progress = 100, message = ''Done''\<rparr>" "''s1''"]
  show ?thesis by (simp add: terminal_def)
qed

section \<open>Properties of the timeline page\<close>

text \<open>
  C8. For a loaded result, the list that \<open>filterSegments\<close> stores is a subsequence of the
  segments of the result: the segments kept are in their original order, none is repeated
  and none is made up. With an empty search term and no topic selected it is the whole
  list. This holds whatever \<open>toLowerCase\<close> does to a string.
\<close>

theorem filterSegments_subseq:
  assumes "timelineData s = Some d"
  shows "subseq (filteredSegments (filterSegments toLowerCase s)) (timeline_segments d) \<and>
         (searchTerm s = '''' \<and> selectedTopics s = [] \<longrightarrow>
            filteredSegments (filterSegments toLowerCase s) = timeline_segments d)"
  using assms
  by (auto simp: filterSegments_def Let_def
      intro: subseq_order.trans [OF subseq_filter_left subseq_filter_left])

theorem filterSegments_subseq_witness:
  "timelineData (demo_page ''BUDGET'' []) = Some demo_result \<and>
   filteredSegments (filterSegments ascii_lower (demo_page ''BUDGET'' [])) = [demo_seg1] \<and>
   subseq [demo_seg1] (timeline_segments demo_result) \<and>
   searchTerm (demo_page '''' []) = '''' \<and> selectedTopics (demo_page '''' []) = [] \<and>
   filteredSegments (filterSegments ascii_lower (demo_page '''' [])) = [demo_seg0, demo_seg1]"
proof -
  have a: "timelineData (demo_page ''BUDGET'' []) = Some demo_result"
    by (simp add: demo_page_def)
  have b: "timelineData (demo_page '''' []) = Some demo_result"
    by (simp add: demo_page_def)
  have c: "filteredSegments (filterSegments ascii_lower (demo_page ''BUDGET'' [])) = [demo_seg1]"
    by (simp add: filterSegments_def demo_page_def demo_result_def demo_seg0_def
        demo_seg1_def ascii_lower_def lower_char_def)
  from filterSegments_subseq [OF a, where toLowerCase = ascii_lower]
    filterSegments_subseq [OF b, where toLowerCase = ascii_lower] a c
  show ?thesis
    by (simp add: demo_page_def demo_result_def)
qed

text \<open>
  C9, as stated: for a duplicate-free list of selected topics, toggling the same topic twice
  gives back exactly that list. It does not when the topic is selected and is not the last
  one: it is removed, and then appended at the end.
\<close>

theorem toggleTopic_twice_counterexample:
  "distinct (selectedTopics (demo_page '''' [''Intro'', ''Budget''])) \<and>
   selectedTopics (toggleTopic ''Intro'' (toggleTopic ''Intro''
       (demo_page '''' [''Intro'', ''Budget''])))
     \<noteq> selectedTopics (demo_page '''' [''Intro'', ''Budget''])"
  by (simp add: toggleTopic_def arr_includes_def demo_page_def)

text \<open>
  C9, amended. For a duplicate-free list of selected topics: one application of
  \<open>toggleTopic\<close> adds the topic, at the end, if it is absent and removes it if it is
  present, and leaves the other topics as they are. Two applications in succession give a
  duplicate-free list with the same topics as the list at the start: exactly that list when
  the topic was absent, and that list with the topic moved to the end when it was present.
\<close>

theorem toggleTopic_twice:
  assumes "distinct (selectedTopics s)"
  shows "arr_includes (selectedTopics (toggleTopic t s)) t
           = (\<not> arr_includes (selectedTopics s) t) \<and>
         set (selectedTopics (toggleTopic t s)) - {t} = set (selectedTopics s) - {t} \<and>
         set (selectedTopics (toggleTopic t (toggleTopic t s))) = set (selectedTopics s) \<and>
         distinct (selectedTopics (toggleTopic t (toggleTopic t s))) \<and>
         (\<not> arr_includes (selectedTopics s) t \<longrightarrow>
            selectedTopics (toggleTopic t s) = selectedTopics s @ [t] \<and>
            selectedTopics (toggleTopic t (toggleTopic t s)) = selectedTopics s) \<and>
         (arr_includes (selectedTopics s) t \<longrightarrow>
            selectedTopics (toggleTopic t (toggleTopic t s))
              = filter (\<lambda>x. x \<noteq> t) (selectedTopics s) @ [t])"
  using assms
  by (auto simp: toggleTopic_def arr_includes_def filter_id_conv)

theorem toggleTopic_twice_witness:
  "distinct (selectedTopics (demo_page '''' [''Intro'', ''Budget''])) \<and>
   \<not> arr_includes (selectedTopics (demo_page '''' [''Intro'', ''Budget''])) ''Demo'' \<and>
   selectedTopics (toggleTopic ''Demo'' (toggleTopic ''Demo''
       (demo_page '''' [''Intro'', ''Budget''])))
     = [''Intro'', ''Budget''] \<and>
   arr_includes (selectedTopics (demo_page '''' [''Intro'', ''Budget''])) ''Intro'' \<and>
   selectedTopics (toggleTopic ''Intro'' (toggleTopic ''Intro''
       (demo_page '''' [''Intro'', ''Budget''])))
     = [''Budget'', ''Intro'']"
proof -
  have d: "distinct (selectedTopics (demo_page '''' [''Intro'', ''Budget'']))"
    by (simp add: demo_page_def)
  from d toggleTopic_twice [OF d, of "''Demo''"] toggleTopic_twice [OF d, of "''Intro''"]
  show ?thesis by (simp add: demo_page_def arr_includes_def)
qed

section \<open>Properties of the Segmenter\<close>

lemma raw_boundaries_times:
  "fst ` set (raw_boundaries sim thr fs) \<subseteq> fst ` set (tl fs)"
  by (induction sim thr fs rule: raw_boundaries.induct) auto

lemma raw_boundaries_sorted:
  "sorted_wrt (<) (map fst fs) \<Longrightarrow> sorted_wrt (<) (map fst (raw_boundaries sim thr fs))"
proof (induction sim thr fs rule: raw_boundaries.induct)
  case (1 sim thr t1 a t2 b fs)
  have sub: "fst ` set (raw_boundaries sim thr ((t2, b) # fs)) \<subseteq> fst ` set fs"
    using raw_boundaries_times [of sim thr "(t2, b) # fs"] by simp
  from "1.prems" have later: "\<forall>x \<in> fst ` set fs. t2 < x" by auto
  from "1.prems" have "sorted_wrt (<) (map fst ((t2, b) # fs))" by simp
  with "1.IH" have ih: "sorted_wrt (<) (map fst (raw_boundaries sim thr ((t2, b) # fs)))"
    by (cases "sim a b < thr") simp_all
  from sub later have "\<forall>x \<in> fst ` set (raw_boundaries sim thr ((t2, b) # fs)). t2 < x"
    by blast
  with ih show ?case by auto
qed simp_all

lemma raw_boundaries_inside:
  assumes "sorted_wrt (<) (map fst fs)" and "\<forall>f \<in> set fs. 0 \<le> fst f \<and> fst f < d"
  shows "inside d (raw_boundaries sim thr fs)"
proof -
  have "0 < fst b \<and> fst b < d" if "b \<in> set (raw_boundaries sim thr fs)" for b
  proof -
    from that raw_boundaries_times [of sim thr fs]
    have mem: "fst b \<in> fst ` set (tl fs)" by blast
    then obtain f0 fs' where fs: "fs = f0 # fs'" by (cases fs) auto
    with mem have "fst b \<in> fst ` set fs'" by simp
    with assms fs show ?thesis by auto
  qed
  with raw_boundaries_sorted [OF assms(1)] show ?thesis by (simp add: inside_def)
qed

text \<open>Taking a boundary away, whichever it is, leaves the others in order and inside.\<close>

lemma remove_boundary_inside: "inside d bs \<Longrightarrow> inside d (remove_boundary j bs)"
proof -
  assume a: "inside d bs"
  have "bs = take j bs @ drop j bs" by simp
  with a have "sorted_wrt (<) (map fst (take j bs) @ map fst (drop j bs))"
    by (metis inside_def map_append)
  moreover have "set (drop (Suc j) bs) \<subseteq> set (drop j bs)"
    by (metis drop_Suc set_drop_subset tl_drop drop_drop plus_1_eq_Suc)
  ultimately have "sorted_wrt (<) (map fst (take j bs) @ map fst (drop (Suc j) bs))"
    using a by (auto simp: sorted_wrt_append inside_def sorted_wrt_map)
  moreover have "set (remove_boundary j bs) \<subseteq> set bs"
    by (auto simp: remove_boundary_def dest: in_set_takeD in_set_dropD)
  ultimately show ?thesis using a by (auto simp: inside_def remove_boundary_def)
qed

lemma merge_short_inside: "inside d bs \<Longrightarrow> inside d (merge_short md d bs)"
proof (induction md d bs rule: merge_short.induct)
  case (1 md d bs)
  show ?case
  proof (cases "bs = []")
    case True
    then show ?thesis by (simp add: inside_def merge_short.simps)
  next
    case False
    show ?thesis
    proof (cases "first_short md (segments_from 0 bs d)")
      case None
      with False "1.prems" show ?thesis by (simp add: merge_short.simps [of md d bs])
    next
      case (Some i)
      from "1.prems" have "inside d (remove_boundary (absorbed_boundary i bs) bs)"
        by (rule remove_boundary_inside)
      with "1.IH" [OF False Some] False Some show ?thesis
        by (simp add: merge_short.simps [of md d bs])
    qed
  qed
qed

text \<open>Merging stops with a single segment or with no short segment.\<close>

lemma merge_short_final:
  "merge_short md d bs = [] \<or>
   first_short md (segments_from 0 (merge_short md d bs) d) = None"
proof (induction md d bs rule: merge_short.induct)
  case (1 md d bs)
  show ?case
  proof (cases "bs = []")
    case True
    then show ?thesis by (simp add: merge_short.simps)
  next
    case False
    show ?thesis
    proof (cases "first_short md (segments_from 0 bs d)")
      case None
      with False show ?thesis by (simp add: merge_short.simps [of md d bs])
    next
      case (Some i)
      with "1.IH" [OF False Some] False show ?thesis
        by (simp add: merge_short.simps [of md d bs])
    qed
  qed
qed

lemma first_short_None: "first_short md gs = None \<Longrightarrow> \<forall>g \<in> set gs. \<not> short md g"
  by (induction gs) (auto split: if_splits)

lemma segments_from_shape:
  assumes "sorted_wrt (<) (map fst bs)" and "\<forall>b \<in> set bs. s < fst b \<and> fst b < d"
    and "s < d"
  shows "contiguous (segments_from s bs d) \<and>
         non_overlapping (segments_from s bs d) \<and>
         seg_start (hd (segments_from s bs d)) = s \<and>
         seg_end (last (segments_from s bs d)) = d \<and>
         (\<forall>g \<in> set (segments_from s bs d). s \<le> seg_start g \<and> seg_start g < seg_end g)"
  using assms
proof (induction s bs d rule: segments_from.induct)
  case (1 s d)
  then show ?case by (simp add: non_overlapping_def)
next
  case (2 s t c bs d)
  from "2.prems" have st: "s < t" and td: "t < d"
    and srt: "sorted_wrt (<) (map fst bs)" and all: "\<forall>b \<in> set bs. t < fst b \<and> fst b < d"
    by auto
  note ih = "2.IH" [OF srt all td]
  have "segments_from t bs d \<noteq> []" by (cases bs) auto
  then obtain g gs where g: "segments_from t bs d = g # gs"
    by (cases "segments_from t bs d") auto
  with ih have "seg_start g = t" by simp
  with ih g st show ?case by (auto simp: non_overlapping_def)
qed

text \<open>
  C6. For a video of positive duration \<open>d\<close> whose sampled frames have ascending
  timestamps within the video, the Visual Segments that the Segmenter returns are
  contiguous (each ends where the next starts), do not overlap, cover the interval from 0 to
  \<open>d\<close>, are not empty, and each of them except possibly the last is at least
  \<open>min_duration\<close> long.
\<close>

theorem segmenter_segments:
  assumes "0 < d" and "sorted_wrt (<) (map fst frames)"
    and "\<forall>f \<in> set frames. 0 \<le> fst f \<and> fst f < d"
  shows "contiguous (segmenter cfg sim d frames) \<and>
         non_overlapping (segmenter cfg sim d frames) \<and>
         covers d (segmenter cfg sim d frames) \<and>
         (\<forall>g \<in> set (segmenter cfg sim d frames). seg_start g < seg_end g) \<and>
         (\<forall>g \<in> set (butlast (segmenter cfg sim d frames)).
            min_duration cfg \<le> seg_end g - seg_start g)"
proof -
  let ?raw = "raw_boundaries sim (similarity_threshold cfg) frames"
  let ?bs = "merge_short (min_duration cfg) d ?raw"
  let ?gs = "segments_from 0 ?bs d"
  have "inside d ?raw" using assms(2,3) by (rule raw_boundaries_inside)
  then have "inside d ?bs" by (rule merge_short_inside)
  then have srt: "sorted_wrt (<) (map fst ?bs)"
    and all: "\<forall>b \<in> set ?bs. 0 < fst b \<and> fst b < d"
    by (simp_all add: inside_def)
  note shape = segments_from_shape [OF srt all assms(1)]
  have ne: "?gs \<noteq> []" by (cases ?bs) auto
  have long: "\<forall>g \<in> set (butlast ?gs). min_duration cfg \<le> seg_end g - seg_start g"
  proof (cases "?bs = []")
    case True
    then show ?thesis by simp
  next
    case False
    with merge_short_final [of "min_duration cfg" d ?raw]
    have "first_short (min_duration cfg) ?gs = None" by simp
    from first_short_None [OF this]
    have none: "\<forall>g \<in> set ?gs. \<not> short (min_duration cfg) g" .
    show ?thesis
    proof
      fix g
      assume "g \<in> set (butlast ?gs)"
      then have "g \<in> set ?gs" by (rule in_set_butlastD)
      with none have "\<not> short (min_duration cfg) g" by blast
      then show "min_duration cfg \<le> seg_end g - seg_start g" by (simp add: short_def)
    qed
  qed
  from shape ne long show ?thesis by (simp add: segmenter_def covers_def)
qed

theorem segmenter_segments_witness:
  "(0::rat) < 10 \<and> sorted_wrt (<) (map fst demo_frames) \<and>
   list_all (\<lambda>f. 0 \<le> fst f \<and> fst f < 10) demo_frames \<and>
   segmenter demo_config demo_similarity 10 demo_frames
     = [\<lparr>seg_start = 0, seg_end = 4\<rparr>, \<lparr>seg_start = 4, seg_end = 10\<rparr>] \<and>
   contiguous (segmenter demo_config demo_similarity 10 demo_frames) \<and>
   non_overlapping (segmenter demo_config demo_similarity 10 demo_frames) \<and>
   covers 10 (segmenter demo_config demo_similarity 10 demo_frames) \<and>
   list_all (\<lambda>g. seg_start g < seg_end g)
     (segmenter demo_config demo_similarity 10 demo_frames) \<and>
   list_all (\<lambda>g. min_duration demo_config \<le> seg_end g - seg_start g)
     (butlast (segmenter demo_config demo_similarity 10 demo_frames))"
proof -
  have p: "(0::rat) < 10" by simp
  have s: "sorted_wrt (<) (map fst demo_frames)" by (simp add: demo_frames_def)
  have b: "\<forall>f \<in> set demo_frames. 0 \<le> fst f \<and> fst f < 10" by (simp add: demo_frames_def)
  have v: "segmenter demo_config demo_similarity 10 demo_frames
             = [\<lparr>seg_start = 0, seg_end = 4\<rparr>, \<lparr>seg_start = 4, seg_end = 10\<rparr>]"
    by (simp add: segmenter_def demo_config_def demo_similarity_def demo_frames_def short_def
        absorbed_boundary_def remove_boundary_def merge_short.simps)
  from segmenter_segments [OF p s b, of demo_config demo_similarity] p s b v
  show ?thesis by (simp add: list_all_iff)
qed

end
